theory Spec2Isabelle
  imports Complex_Main
begin

section \<open>The panel development drawing of \<^verbatim>\<open>cad.py\<close>\<close>

text \<open>
  \<^verbatim>\<open>cad.py\<close> is a single script: a block of parameters, four helper functions, and a
  module-level build that adds lines, a spline, circles and texts to the modelspace of
  a drawing and saves it.

  Numbers. The script computes with Python floats (and the ints of \<^verbatim>\<open>stations\<close>).
  They are modelled as exact real numbers: comparisons, sums, products and quotients
  are the mathematical ones, and the rounding of IEEE doubles is not part of the
  model. Every statement below about a computed coordinate is a statement of exact
  arithmetic.

  The drawing library. \<^verbatim>\<open>ezdxf\<close> is not part of the repository. The modelspace is
  modelled as the list of entities added to it, in order; \<^verbatim>\<open>Vec2\<close> is a pair
  \<open>(x, y)\<close>; \<^verbatim>\<open>Vec2.lerp\<close> is linear interpolation. Saving the file is input/output
  and is left out.
\<close>

subsection \<open>Data\<close>

type_synonym vec2 = "real \<times> real"

text \<open>The exceptions the script can raise: indexing an empty list, with the message of
  the exception.\<close>

datatype error = IndexError string

definition list_index_out_of_range :: error where
  "list_index_out_of_range = IndexError ''list index out of range''"

text \<open>What \<^verbatim>\<open>msp.add_line\<close>, \<^verbatim>\<open>add_circle\<close>, \<^verbatim>\<open>add_spline\<close> and \<^verbatim>\<open>add_text\<close> create; the last
  argument is the layer.\<close>

datatype entity =
    Line vec2 vec2 string
  | Circle vec2 real string
  | Spline "vec2 list" string
  | Text string vec2 real string

text \<open>The PARAMETERS block (lines 15 to 60), one field per module-level name.\<close>

record params =
  UNITS :: string
  overall_len :: real
  top_left_flange :: real
  top_right_flange :: real
  bot_left_return :: real
  bot_right_width :: real
  bottom_gauge_width :: real
  left_x :: real
  right_edge_profile :: "(real \<times> real) list"
  stations :: "real list"
  hole_offset_from_left :: real
  hole_offset_from_right :: real
  hole_dia :: real
  bending_line_y :: real
  txt_h :: real

record document =
  layers :: "(string \<times> nat) list"
  msp :: "entity list"

subsection \<open>Helper functions (lines 63 to 86)\<close>

definition add_line :: "entity list \<Rightarrow> vec2 \<Rightarrow> vec2 \<Rightarrow> string \<Rightarrow> entity list" where
  "add_line m a b layer = m @ [Line a b layer]"

definition add_circle :: "entity list \<Rightarrow> vec2 \<Rightarrow> real \<Rightarrow> string \<Rightarrow> entity list" where
  "add_circle m center d layer = (let r = d / 2 in m @ [Circle center r layer])"

definition add_text :: "entity list \<Rightarrow> string \<Rightarrow> vec2 \<Rightarrow> string \<Rightarrow> real \<Rightarrow> entity list" where
  "add_text m text insert_at layer height = m @ [Text text insert_at height layer]"

definition spline_from_points :: "entity list \<Rightarrow> vec2 list \<Rightarrow> string \<Rightarrow> entity list" where
  "spline_from_points m pts layer = m @ [Spline pts layer]"

text \<open>\<^verbatim>\<open>p1.lerp(p2, t)\<close> of the library: \<open>p1 + (p2 - p1) * t\<close>, componentwise.\<close>

definition lerp :: "vec2 \<Rightarrow> vec2 \<Rightarrow> real \<Rightarrow> vec2" where
  "lerp p1 p2 t = (fst p1 + (fst p2 - fst p1) * t, snd p1 + (snd p2 - snd p1) * t)"

text \<open>The body of the \<^verbatim>\<open>for i in range(segs)\<close> loop of \<^verbatim>\<open>dashed_line\<close>, over the indices
  still to visit, with the loop variable \<^verbatim>\<open>on\<close> and the modelspace as state.\<close>

fun dashed_loop ::
  "nat \<Rightarrow> vec2 \<Rightarrow> vec2 \<Rightarrow> string \<Rightarrow> nat list \<Rightarrow> bool \<Rightarrow> entity list \<Rightarrow> entity list" where
  "dashed_loop segs p1 p2 layer [] on m = m"
| "dashed_loop segs p1 p2 layer (i # is) on m =
     (let t0 = real i / real segs;
          t1 = real (i + 1) / real segs;
          a = lerp p1 p2 t0;
          b = lerp p1 p2 t1;
          m' = (if on then add_line m a b layer else m)
      in dashed_loop segs p1 p2 layer is (\<not> on) m')"

definition dashed_line :: "entity list \<Rightarrow> vec2 \<Rightarrow> vec2 \<Rightarrow> string \<Rightarrow> entity list" where
  "dashed_line m p1 p2 layer =
     (let segs = 80; on = True in dashed_loop segs p1 p2 layer [0..<segs] on m)"

subsection \<open>The profile interpolator (lines 143 to 155)\<close>

text \<open>The \<^verbatim>\<open>for (y0, x0), (y1, x1) in zip(rp, rp[1:])\<close> loop; \<open>dflt\<close> is the value of the
  \<^verbatim>\<open>return rp[-1][1]\<close> after the loop.\<close>

fun find_span :: "((real \<times> real) \<times> (real \<times> real)) list \<Rightarrow> real \<Rightarrow> real \<Rightarrow> real" where
  "find_span [] y_query dflt = dflt"
| "find_span (((y0, x0), (y1, x1)) # spans) y_query dflt =
     (if y0 \<le> y_query \<and> y_query \<le> y1
      then (let t = (if y1 \<noteq> y0 then (y_query - y0) / (y1 - y0) else 0)
            in x0 + t * (x1 - x0))
      else find_span spans y_query dflt)"

text \<open>\<^verbatim>\<open>right_x_at\<close> reads the module-level \<^verbatim>\<open>right_edge_profile\<close>, here its first argument.
  \<^verbatim>\<open>sorted(..., key=lambda t: t[0])\<close> is a stable sort by the first component, as
  \<^const>\<open>sort_key\<close> is. \<^verbatim>\<open>rp[0]\<close> raises on an empty list.\<close>

definition right_x_at :: "(real \<times> real) list \<Rightarrow> real \<Rightarrow> error + real" where
  "right_x_at profile y_query =
     (let rp = sort_key fst profile in
      if rp = [] then Inl list_index_out_of_range
      else if y_query \<le> fst (hd rp) then Inr (snd (hd rp))
      else if y_query \<ge> fst (last rp) then Inr (snd (last rp))
      else Inr (find_span (zip rp (tl rp)) y_query (snd (last rp))))"

subsection \<open>The build (lines 89 to 174)\<close>

text \<open>Lines 93 to 98: a layer is added unless its name is in the table.\<close>

fun add_layers :: "(string \<times> nat) list \<Rightarrow> (string \<times> nat) list \<Rightarrow> (string \<times> nat) list" where
  "add_layers ls [] = ls"
| "add_layers ls ((name, color) # rest) =
     add_layers (if name \<notin> set (map fst ls) then ls @ [(name, color)] else ls) rest"

text \<open>Lines 110 to 113: the provisional span, replaced when the profile is not empty.\<close>

definition top_right :: "params \<Rightarrow> vec2" where
  "top_right p =
     (let top_y = 0;
          provisional = (left_x p + top_left_flange p + 300 + top_right_flange p, top_y)
      in if right_edge_profile p \<noteq> []
         then (snd (hd (right_edge_profile p)), fst (hd (right_edge_profile p)))
         else provisional)"

text \<open>Line 117: \<^verbatim>\<open>right_edge_profile[-1]\<close> raises on an empty profile.\<close>

definition bot_right_pt :: "params \<Rightarrow> error + vec2" where
  "bot_right_pt p =
     (if right_edge_profile p = [] then Inl list_index_out_of_range
      else Inr (snd (last (right_edge_profile p)), fst (last (right_edge_profile p))))"

text \<open>Line 127.\<close>

definition right_pts :: "params \<Rightarrow> vec2 list" where
  "right_pts p = map (\<lambda>(y, x). (x, y)) (right_edge_profile p)"

text \<open>Lines 119 to 132: the outline, given the bottom right point.\<close>

definition outline :: "params \<Rightarrow> vec2 \<Rightarrow> entity list \<Rightarrow> entity list" where
  "outline p brp m0 =
     (let top_y = 0;
          bot_y = overall_len p;
          left_top = (left_x p, top_y);
          left_bot = (left_x p, bot_y);
          top_left_in = (left_x p + top_left_flange p, top_y);
          bot_left_out = (bot_left_return p, bot_y);
          m = add_line m0 left_top left_bot ''OUTLINE'';
          m = add_line m left_top top_left_in ''OUTLINE'';
          m = add_line m top_left_in (top_right p) ''OUTLINE'';
          m = spline_from_points m (right_pts p) ''OUTLINE'';
          m = add_line m brp bot_left_out ''OUTLINE'';
          m = add_line m bot_left_out left_bot ''OUTLINE''
      in m)"

text \<open>Lines 136 to 139.\<close>

fun left_holes_loop :: "params \<Rightarrow> real list \<Rightarrow> entity list \<Rightarrow> entity list" where
  "left_holes_loop p [] m = m"
| "left_holes_loop p (y # ys) m =
     (let cx = left_x p + hole_offset_from_left p;
          cy = y
      in left_holes_loop p ys (add_circle m (cx, cy) (hole_dia p) ''HOLES_L''))"

text \<open>Lines 157 to 161; an exception of \<^verbatim>\<open>right_x_at\<close> ends the loop.\<close>

fun right_holes_loop :: "params \<Rightarrow> real list \<Rightarrow> entity list \<Rightarrow> error + entity list" where
  "right_holes_loop p [] m = Inr m"
| "right_holes_loop p (y # ys) m =
     (case right_x_at (right_edge_profile p) y of
        Inl e \<Rightarrow> Inl e
      | Inr edge_x \<Rightarrow>
          (let cx = edge_x - hole_offset_from_right p;
               cy = y
           in right_holes_loop p ys (add_circle m (cx, cy) (hole_dia p) ''HOLES_R'')))"

text \<open>\<^verbatim>\<open>int(y)\<close> truncates towards zero; \<^verbatim>\<open>f"{n}"\<close> prints an int in decimal.\<close>

definition py_int :: "real \<Rightarrow> int" where
  "py_int y = (if 0 \<le> y then \<lfloor>y\<rfloor> else \<lceil>y\<rceil>)"

fun str_nat :: "nat \<Rightarrow> string" where
  "str_nat n =
     (if n < 10 then [''0123456789'' ! n]
      else str_nat (n div 10) @ [''0123456789'' ! (n mod 10)])"

declare str_nat.simps [simp del]

definition str_int :: "int \<Rightarrow> string" where
  "str_int i = (if i < 0 then ''-'' @ str_nat (nat (- i)) else str_nat (nat i))"

text \<open>Lines 169 to 171.\<close>

fun ticks_loop :: "params \<Rightarrow> real list \<Rightarrow> entity list \<Rightarrow> entity list" where
  "ticks_loop p [] m = m"
| "ticks_loop p (y # ys) m =
     (let m1 = add_line m (left_x p - 8, y) (left_x p, y) ''CENTER'';
          m2 = add_text m1 (str_int (py_int y)) (left_x p - 40, y - 3) ''NOTES'' 8
      in ticks_loop p ys m2)"

text \<open>Lines 164 to 174, after the holes. \<^verbatim>\<open>right_pts[-1]\<close> raises on an empty list.\<close>

definition bend_and_notes :: "params \<Rightarrow> entity list \<Rightarrow> error + entity list" where
  "bend_and_notes p m0 =
     (if right_pts p = [] then Inl list_index_out_of_range
      else
        (let m = dashed_line m0 (left_x p, bending_line_y p)
                   (fst (last (right_pts p)), bending_line_y p) ''CENTER'';
             m = add_text m ''Bending line'' (left_x p + 10, bending_line_y p + 12) ''NOTES'' (txt_h p);
             m = ticks_loop p (stations p) m;
             m = add_text m (''Units: '' @ UNITS p) (10, overall_len p + 40) ''NOTES'' 8;
             m = add_text m ''Development View'' (10, overall_len p + 20) ''NOTES'' 10
         in Inr m))"

text \<open>The whole module-level build, from a new document to the document that is saved.
  The layers of a new document that the library creates itself are left out. An
  exception ends the build, and nothing is saved.\<close>

definition build :: "params \<Rightarrow> error + document" where
  "build p =
     (let ls = add_layers []
                 [(''OUTLINE'', 7), (''HOLES_L'', 3), (''HOLES_R'', 5), (''CENTER'', 2), (''NOTES'', 1)]
      in case bot_right_pt p of
           Inl e \<Rightarrow> Inl e
         | Inr brp \<Rightarrow>
             (let m = outline p brp [];
                  m = left_holes_loop p (stations p) m
              in case right_holes_loop p (stations p) m of
                   Inl e \<Rightarrow> Inl e
                 | Inr m \<Rightarrow>
                     (case bend_and_notes p m of
                        Inl e \<Rightarrow> Inl e
                      | Inr m \<Rightarrow> Inr \<lparr>layers = ls, msp = m\<rparr>)))"

subsection \<open>Reading a drawing\<close>

text \<open>The holes of a drawing: its circles on the layer of the left holes, and on the
  layer of the right holes.\<close>

fun is_circle_on :: "string \<Rightarrow> entity \<Rightarrow> bool" where
  "is_circle_on layer (Circle c r l) = (l = layer)"
| "is_circle_on layer e = False"

definition left_holes :: "document \<Rightarrow> entity list" where
  "left_holes d = filter (is_circle_on ''HOLES_L'') (msp d)"

definition right_holes :: "document \<Rightarrow> entity list" where
  "right_holes d = filter (is_circle_on ''HOLES_R'') (msp d)"



text \<open>The parameters as the script has them.\<close>

definition script_params :: params where
  "script_params =
     \<lparr>UNITS = ''mm'', overall_len = 1670, top_left_flange = 35, top_right_flange = 16,
      bot_left_return = 83, bot_right_width = 330, bottom_gauge_width = 345, left_x = 0,
      right_edge_profile =
        [(0, 35 + 350), (235, 360), (435, 368), (635, 372), (835, 374),
         (1035, 372), (1235, 368), (1435, 360), (1635, 345)],
      stations = [55, 285, 515, 835, 1155, 1385, 1615],
      hole_offset_from_left = 20, hole_offset_from_right = 20, hole_dia = 14,
      bending_line_y = 1385, txt_h = 10\<rparr>"

text \<open>The parameters of the end-to-end scenario of the specification; what it leaves
  open is as in the script.\<close>

definition scenario_params :: params where
  "scenario_params =
     script_params\<lparr>overall_len := 1000, right_edge_profile := [(0, 350), (1000, 400)],
       stations := [500], hole_offset_from_left := 20, hole_offset_from_right := 20\<rparr>"

section \<open>The same computations in double precision\<close>

text \<open>
  Python's floats are IEEE binary64 numbers. A double is a real number, so the type of
  the values stays \<open>real\<close>; what differs is that every sum, difference, product and
  quotient is rounded to the nearest double, ties to the even significand. \<open>fl\<close> is that
  rounding, with 53 significant bits. The exponent is not bounded: overflow to infinity
  and the subnormal numbers are not modelled, and the values in the statements below
  lie far inside the range of the normal doubles.
\<close>

text \<open>\<open>expo x\<close> is the exponent \<open>e\<close> with \<open>2\<^sup>e \<le> \<bar>x\<bar> < 2\<^sup>e\<^sup>+\<^sup>1\<close>, found by halving or doubling.\<close>

function expo_ge :: "real \<Rightarrow> int" where
  "expo_ge x = (if 2 \<le> x then expo_ge (x / 2) + 1 else 0)"
  by pat_completeness auto
termination
proof (relation "measure (\<lambda>x. nat \<lceil>x\<rceil>)")
  show "wf (measure (\<lambda>x. nat \<lceil>x\<rceil>))" by simp
next
  fix x :: real
  assume x: "2 \<le> x"
  have "x / 2 \<le> x - 1" using x by simp
  then have "\<lceil>x / 2\<rceil> \<le> \<lceil>x - 1\<rceil>" by (rule ceiling_mono)
  then have "\<lceil>x / 2\<rceil> < \<lceil>x\<rceil>" by simp
  moreover have "0 < \<lceil>x\<rceil>" using x by simp
  ultimately show "(x / 2, x) \<in> measure (\<lambda>x. nat \<lceil>x\<rceil>)" by simp
qed

function expo_lt :: "real \<Rightarrow> int" where
  "expo_lt x = (if 0 < x \<and> x < 1 then expo_lt (2 * x) - 1 else 0)"
  by pat_completeness auto
termination
proof (relation "measure (\<lambda>x. nat \<lceil>1 / x\<rceil>)")
  show "wf (measure (\<lambda>x. nat \<lceil>1 / x\<rceil>))" by simp
next
  fix x :: real
  assume x: "0 < x \<and> x < 1"
  define y where "y = 1 / x"
  have y: "1 < y" using x by (simp add: y_def)
  have pos: "1 < \<lceil>y\<rceil>" using y by (simp add: less_ceiling_iff)
  have "\<lceil>y / 2\<rceil> < \<lceil>y\<rceil>"
  proof (cases "2 \<le> y")
    case True
    then have "y / 2 \<le> y - 1" by simp
    then have "\<lceil>y / 2\<rceil> \<le> \<lceil>y - 1\<rceil>" by (rule ceiling_mono)
    then show ?thesis by simp
  next
    case False
    then have "y / 2 \<le> 1" by simp
    then have "\<lceil>y / 2\<rceil> \<le> 1" by (simp only: ceiling_le_one)
    with pos show ?thesis by linarith
  qed
  moreover have "1 / (2 * x) = y / 2" by (simp add: y_def)
  ultimately have "\<lceil>1 / (2 * x)\<rceil> < \<lceil>y\<rceil>" by (simp only:)
  with pos have "nat \<lceil>1 / (2 * x)\<rceil> < nat \<lceil>y\<rceil>" by linarith
  then have "nat \<lceil>1 / (2 * x)\<rceil> < nat \<lceil>1 / x\<rceil>" by (simp only: y_def)
  then show "(2 * x, x) \<in> measure (\<lambda>x. nat \<lceil>1 / x\<rceil>)" by simp
qed

declare expo_ge.simps [simp del] expo_lt.simps [simp del]

definition expo :: "real \<Rightarrow> int" where
  "expo x = (if 1 \<le> \<bar>x\<bar> then expo_ge \<bar>x\<bar> else expo_lt \<bar>x\<bar>)"

definition pow2 :: "int \<Rightarrow> real" where
  "pow2 e = (if 0 \<le> e then 2 ^ nat e else 1 / 2 ^ nat (- e))"

definition round_even :: "real \<Rightarrow> int" where
  "round_even r =
     (let f = \<lfloor>r\<rfloor>; d = r - of_int f
      in if d < 1 / 2 then f else if 1 / 2 < d then f + 1 else if even f then f else f + 1)"

definition fl :: "real \<Rightarrow> real" where
  "fl x = (if x = 0 then 0 else (let u = pow2 (expo x - 52) in of_int (round_even (x / u)) * u))"

text \<open>The functions whose results depend on the rounding, with each arithmetic
  operation of the source rounded: \<^verbatim>\<open>Vec2.lerp\<close> and \<^verbatim>\<open>dashed_line\<close> (lines 75 to 86),
  where \<^verbatim>\<open>i / segs\<close> is the rounded quotient of two ints, and \<^verbatim>\<open>right_x_at\<close> (lines 143
  to 155). The comparisons and the control flow are those of the exact functions.\<close>

definition lerp_fl :: "vec2 \<Rightarrow> vec2 \<Rightarrow> real \<Rightarrow> vec2" where
  "lerp_fl p1 p2 t =
     (fl (fst p1 + fl (fl (fst p2 - fst p1) * t)), fl (snd p1 + fl (fl (snd p2 - snd p1) * t)))"

fun dashed_loop_fl ::
  "nat \<Rightarrow> vec2 \<Rightarrow> vec2 \<Rightarrow> string \<Rightarrow> nat list \<Rightarrow> bool \<Rightarrow> entity list \<Rightarrow> entity list" where
  "dashed_loop_fl segs p1 p2 layer [] on m = m"
| "dashed_loop_fl segs p1 p2 layer (i # is) on m =
     (let t0 = fl (real i / real segs);
          t1 = fl (real (i + 1) / real segs);
          a = lerp_fl p1 p2 t0;
          b = lerp_fl p1 p2 t1;
          m' = (if on then add_line m a b layer else m)
      in dashed_loop_fl segs p1 p2 layer is (\<not> on) m')"

definition dashed_line_fl :: "entity list \<Rightarrow> vec2 \<Rightarrow> vec2 \<Rightarrow> string \<Rightarrow> entity list" where
  "dashed_line_fl m p1 p2 layer =
     (let segs = 80; on = True in dashed_loop_fl segs p1 p2 layer [0..<segs] on m)"

fun find_span_fl :: "((real \<times> real) \<times> (real \<times> real)) list \<Rightarrow> real \<Rightarrow> real \<Rightarrow> real" where
  "find_span_fl [] y_query dflt = dflt"
| "find_span_fl (((y0, x0), (y1, x1)) # spans) y_query dflt =
     (if y0 \<le> y_query \<and> y_query \<le> y1
      then (let t = (if y1 \<noteq> y0 then fl (fl (y_query - y0) / fl (y1 - y0)) else 0)
            in fl (x0 + fl (t * fl (x1 - x0))))
      else find_span_fl spans y_query dflt)"

definition right_x_at_fl :: "(real \<times> real) list \<Rightarrow> real \<Rightarrow> error + real" where
  "right_x_at_fl profile y_query =
     (let rp = sort_key fst profile in
      if rp = [] then Inl list_index_out_of_range
      else if y_query \<le> fst (hd rp) then Inr (snd (hd rp))
      else if y_query \<ge> fst (last rp) then Inr (snd (last rp))
      else Inr (find_span_fl (zip rp (tl rp)) y_query (snd (last rp))))"

section \<open>Auxiliary facts\<close>

subsection \<open>The loops as list functions\<close>

lemma dashed_loop_upt:
  "dashed_loop segs p1 p2 layer [k..<n] on m =
     m @ map (\<lambda>i. Line (lerp p1 p2 (real i / real segs)) (lerp p1 p2 (real (i + 1) / real segs)) layer)
           (filter (\<lambda>i. even (i - k) = on) [k..<n])"
proof (induction "n - k" arbitrary: k on m)
  case 0
  then show ?case by simp
next
  case (Suc d)
  then have kn: "k < n" and d: "d = n - Suc k" by simp_all
  have flt: "filter (\<lambda>i. even (i - Suc k) = (\<not> on)) [Suc k..<n] = filter (\<lambda>i. even (i - k) = on) [Suc k..<n]"
    by (rule filter_cong) (auto simp: Suc_diff_le)
  show ?case
    using Suc.hyps(1)[OF d, of "\<not> on"] kn flt
    by (simp add: upt_conv_Cons add_line_def Let_def)
qed

lemma dashed_line_drawn:
  "dashed_line m p1 p2 layer =
     m @ map (\<lambda>i. Line (lerp p1 p2 (real i / 80)) (lerp p1 p2 (real (i + 1) / 80)) layer)
           (filter even [0..<80])"
  by (simp add: dashed_line_def dashed_loop_upt Let_def del: upt.simps)



lemma left_holes_loop_eq:
  "left_holes_loop p ys m =
     m @ map (\<lambda>y. Circle (left_x p + hole_offset_from_left p, y) (hole_dia p / 2) ''HOLES_L'') ys"
  by (induction ys arbitrary: m) (simp_all add: add_circle_def Let_def)

lemma ticks_loop_eq:
  "ticks_loop p ys m =
     m @ concat (map (\<lambda>y. [Line (left_x p - 8, y) (left_x p, y) ''CENTER'',
                           Text (str_int (py_int y)) (left_x p - 40, y - 3) 8 ''NOTES'']) ys)"
  by (induction ys arbitrary: m) (simp_all add: add_line_def add_text_def Let_def)

subsection \<open>Sorting by the first component\<close>

lemma sort_key_Nil_iff: "sort_key f xs = [] \<longleftrightarrow> xs = []"
  using length_sort[of f xs] by (metis length_0_conv)

lemma right_x_at_total:
  "profile \<noteq> [] \<Longrightarrow> \<exists>x. right_x_at profile y = Inr x"
  by (simp add: right_x_at_def Let_def sort_key_Nil_iff)

lemma sorted_key_hd_Min:
  "sorted (map f xs) \<Longrightarrow> xs \<noteq> [] \<Longrightarrow> f (hd xs) = Min (f ` set xs)"
  by (cases xs) (auto intro!: Min_eqI[symmetric])

lemma sorted_key_last_Max:
  "sorted (map f xs) \<Longrightarrow> xs \<noteq> [] \<Longrightarrow> f (last xs) = Max (f ` set xs)"
proof -
  assume s: "sorted (map f xs)" and ne: "xs \<noteq> []"
  have "\<And>x. x \<in> set xs \<Longrightarrow> f x \<le> f (last xs)"
  proof -
    fix x assume "x \<in> set xs"
    then obtain i where i: "i < length xs" "xs ! i = x" by (auto simp: in_set_conv_nth)
    have "map f xs ! i \<le> map f xs ! (length xs - 1)"
      by (rule sorted_nth_mono[OF s]) (use i ne in auto)
    then show "f x \<le> f (last xs)" using i ne by (simp add: last_conv_nth)
  qed
  then show ?thesis using ne by (auto intro!: Max_eqI[symmetric])
qed



subsection \<open>The span search\<close>

lemma find_span_bracket:
  "sorted (map fst rp) \<Longrightarrow> 2 \<le> length rp \<Longrightarrow> fst (hd rp) \<le> y \<Longrightarrow> y \<le> fst (last rp) \<Longrightarrow>
   \<exists>i. Suc i < length rp \<and> fst (rp ! i) \<le> y \<and> y \<le> fst (rp ! Suc i) \<and>
       (\<forall>j<i. \<not> (fst (rp ! j) \<le> y \<and> y \<le> fst (rp ! Suc j))) \<and>
       find_span (zip rp (tl rp)) y d =
         snd (rp ! i) + (if fst (rp ! Suc i) \<noteq> fst (rp ! i)
                         then (y - fst (rp ! i)) / (fst (rp ! Suc i) - fst (rp ! i)) else 0)
                        * (snd (rp ! Suc i) - snd (rp ! i))"
proof (induction rp)
  case Nil
  then show ?case by simp
next
  case (Cons a rp)
  then obtain b rest where rp: "rp = b # rest" by (cases rp) auto
  obtain y0 x0 where a: "a = (y0, x0)" by (cases a)
  obtain y1 x1 where b: "b = (y1, x1)" by (cases b)
  show ?case
  proof (cases "y0 \<le> y \<and> y \<le> y1")
    case True
    then show ?thesis
      by (intro exI[of _ 0]) (simp add: rp a b Let_def)
  next
    case False
    with Cons.prems have gt: "y1 < y" by (simp add: a)
    have rest: "rest \<noteq> []"
      using Cons.prems(4) gt by (auto simp: rp b)
    have "\<exists>i. Suc i < length rp \<and> fst (rp ! i) \<le> y \<and> y \<le> fst (rp ! Suc i) \<and>
       (\<forall>j<i. \<not> (fst (rp ! j) \<le> y \<and> y \<le> fst (rp ! Suc j))) \<and>
       find_span (zip rp (tl rp)) y d =
         snd (rp ! i) + (if fst (rp ! Suc i) \<noteq> fst (rp ! i)
                         then (y - fst (rp ! i)) / (fst (rp ! Suc i) - fst (rp ! i)) else 0)
                        * (snd (rp ! Suc i) - snd (rp ! i))"
    proof (rule Cons.IH)
      show "sorted (map fst rp)" using Cons.prems(1) by simp
      show "2 \<le> length rp" using rest by (cases rest) (simp_all add: rp)
      show "fst (hd rp) \<le> y" using gt by (simp add: rp b)
      show "y \<le> fst (last rp)" using Cons.prems(4) by (simp add: rp)
    qed
    then obtain i where i: "Suc i < length rp" "fst (rp ! i) \<le> y" "y \<le> fst (rp ! Suc i)"
       "\<forall>j<i. \<not> (fst (rp ! j) \<le> y \<and> y \<le> fst (rp ! Suc j))"
       "find_span (zip rp (tl rp)) y d =
         snd (rp ! i) + (if fst (rp ! Suc i) \<noteq> fst (rp ! i)
                         then (y - fst (rp ! i)) / (fst (rp ! Suc i) - fst (rp ! i)) else 0)
                        * (snd (rp ! Suc i) - snd (rp ! i))"
      by blast
    have first: "\<forall>j<Suc i. \<not> (fst ((a # rp) ! j) \<le> y \<and> y \<le> fst ((a # rp) ! Suc j))"
    proof (intro allI impI)
      fix j assume "j < Suc i"
      show "\<not> (fst ((a # rp) ! j) \<le> y \<and> y \<le> fst ((a # rp) ! Suc j))"
      proof (cases j)
        case 0
        then show ?thesis using False by (simp add: a rp b)
      next
        case (Suc j')
        with \<open>j < Suc i\<close> have "j' < i" by simp
        with i(4) show ?thesis by (simp add: Suc)
      qed
    qed
    have fs: "find_span (zip (a # rp) (tl (a # rp))) y d = find_span (zip rp (tl rp)) y d"
      using False by (auto simp add: rp a b)
    show ?thesis
      by (intro exI[of _ "Suc i"]) (use i first fs in simp)
  qed
qed

subsection \<open>The end points of the dashed line\<close>



subsection \<open>The build as a list of entities\<close>

lemma right_holes_loop_eq:
  "right_edge_profile p \<noteq> [] \<Longrightarrow>
   right_holes_loop p ys m =
     Inr (m @ map (\<lambda>y. Circle (projr (right_x_at (right_edge_profile p) y) - hole_offset_from_right p, y)
                        (hole_dia p / 2) ''HOLES_R'') ys)"
proof (induction ys arbitrary: m)
  case Nil
  then show ?case by simp
next
  case (Cons y ys)
  from right_x_at_total[OF Cons.prems, of y]
  obtain x where x: "right_x_at (right_edge_profile p) y = Inr x" by blast
  show ?case
    using Cons.IH[OF Cons.prems] by (simp add: x add_circle_def Let_def)
qed

lemma bend_and_notes_eq:
  "right_edge_profile p \<noteq> [] \<Longrightarrow>
   bend_and_notes p m =
     Inr (m @ map (\<lambda>i. Line (lerp (left_x p, bending_line_y p) (fst (last (right_pts p)), bending_line_y p) (real i / 80))
                       (lerp (left_x p, bending_line_y p) (fst (last (right_pts p)), bending_line_y p) (real (i + 1) / 80))
                       ''CENTER'') (filter even [0..<80])
       @ [Text ''Bending line'' (left_x p + 10, bending_line_y p + 12) (txt_h p) ''NOTES'']
       @ concat (map (\<lambda>y. [Line (left_x p - 8, y) (left_x p, y) ''CENTER'',
                             Text (str_int (py_int y)) (left_x p - 40, y - 3) 8 ''NOTES'']) (stations p))
       @ [Text (''Units: '' @ UNITS p) (10, overall_len p + 40) 8 ''NOTES'',
          Text ''Development View'' (10, overall_len p + 20) 10 ''NOTES''])"
  by (simp add: bend_and_notes_def right_pts_def dashed_line_drawn ticks_loop_eq add_text_def Let_def
        del: upt.simps)

lemma circles_of_bend_and_notes:
  assumes "right_edge_profile p \<noteq> []"
  shows "filter (is_circle_on l) (projr (bend_and_notes p m)) = filter (is_circle_on l) m"
proof -
  have "filter (is_circle_on l) (concat (map (\<lambda>y. [Line (a y) (b y) c, Text (s y) (q y) h n]) ys)) = []"
    for a b c s q h n and ys :: "real list"
    by (induction ys) simp_all
  then show ?thesis
    by (simp add: bend_and_notes_eq[OF assms] filter_empty_conv del: upt.simps)
qed

lemma prefix_of_bend_and_notes:
  assumes "right_edge_profile p \<noteq> []" and "i < length m"
  shows "projr (bend_and_notes p m) ! i = m ! i"
  using assms(2) by (simp add: bend_and_notes_eq[OF assms(1)] nth_append del: upt.simps)

lemma circles_of_outline:
  "filter (is_circle_on l) (outline p brp []) = []"
  by (simp add: outline_def add_line_def spline_from_points_def Let_def)

lemma layers_of_build:
  "add_layers [] [(''OUTLINE'', 7), (''HOLES_L'', 3), (''HOLES_R'', 5), (''CENTER'', 2), (''NOTES'', 1)]
     = [(''OUTLINE'', 7), (''HOLES_L'', 3), (''HOLES_R'', 5), (''CENTER'', 2), (''NOTES'', 1)]"
  by simp

lemma build_ok:
  assumes "right_edge_profile p \<noteq> []"
  shows "build p =
     Inr \<lparr>layers = [(''OUTLINE'', 7), (''HOLES_L'', 3), (''HOLES_R'', 5), (''CENTER'', 2), (''NOTES'', 1)],
          msp = projr (bend_and_notes p
                  (outline p (snd (last (right_edge_profile p)), fst (last (right_edge_profile p))) []
                   @ map (\<lambda>y. Circle (left_x p + hole_offset_from_left p, y) (hole_dia p / 2) ''HOLES_L'')
                       (stations p)
                   @ map (\<lambda>y. Circle (projr (right_x_at (right_edge_profile p) y) - hole_offset_from_right p, y)
                              (hole_dia p / 2) ''HOLES_R'') (stations p)))\<rparr>"
proof -
  obtain m' where m': "bend_and_notes p
                  (outline p (snd (last (right_edge_profile p)), fst (last (right_edge_profile p))) []
                   @ map (\<lambda>y. Circle (left_x p + hole_offset_from_left p, y) (hole_dia p / 2) ''HOLES_L'')
                       (stations p)
                   @ map (\<lambda>y. Circle (projr (right_x_at (right_edge_profile p) y) - hole_offset_from_right p, y)
                              (hole_dia p / 2) ''HOLES_R'') (stations p)) = Inr m'"
    using bend_and_notes_eq[OF assms] by blast
  show ?thesis
    unfolding build_def layers_of_build
    using assms
    by (simp add: bot_right_pt_def left_holes_loop_eq right_holes_loop_eq m' Let_def)
qed

lemma left_holes_build:
  "right_edge_profile p \<noteq> [] \<Longrightarrow> build p = Inr d \<Longrightarrow>
   left_holes d = map (\<lambda>y. Circle (left_x p + hole_offset_from_left p, y) (hole_dia p / 2) ''HOLES_L'')
                    (stations p)"
  by (auto simp: build_ok left_holes_def circles_of_bend_and_notes circles_of_outline
        filter_map comp_def filter_empty_conv)

lemma right_holes_build:
  "right_edge_profile p \<noteq> [] \<Longrightarrow> build p = Inr d \<Longrightarrow>
   right_holes d = map (\<lambda>y. Circle (projr (right_x_at (right_edge_profile p) y) - hole_offset_from_right p, y)
                              (hole_dia p / 2) ''HOLES_R'') (stations p)"
  by (auto simp: build_ok right_holes_def circles_of_bend_and_notes circles_of_outline
        filter_map comp_def filter_empty_conv)

lemma build_ignores_top_right_flange:
  "right_edge_profile p \<noteq> [] \<Longrightarrow> build (p\<lparr>top_right_flange := w\<rparr>) = build p"
  by (simp add: build_ok bend_and_notes_eq outline_def top_right_def right_pts_def Let_def
        del: upt.simps)

section \<open>The claims\<close>

subsection \<open>C1: interpolation between the breakpoints\<close>

text \<open>
  Claim C1. For a profile sorted ascending by its first component and a query \<open>y\<close>
  strictly between the first and the last breakpoint, \<^const>\<open>right_x_at\<close> returns the
  value of the first pair of neighbours \<open>(y0, x0)\<close>, \<open>(y1, x1)\<close> with \<open>y0 \<le> y \<le> y1\<close>:
  \<open>x0\<close> when \<open>y1 = y0\<close>, and \<open>x0 + (y - y0) / (y1 - y0) * (x1 - x0)\<close> otherwise. The
  theorem finds the pair by its index \<open>i\<close> in the profile.
\<close>

theorem right_x_at_interpolates:
  assumes "sorted (map fst rp)" and "rp \<noteq> []"
    and "fst (hd rp) < y" and "y < fst (last rp)"
  shows "\<exists>i. Suc i < length rp \<and> fst (rp ! i) \<le> y \<and> y \<le> fst (rp ! Suc i) \<and>
           (\<forall>j<i. \<not> (fst (rp ! j) \<le> y \<and> y \<le> fst (rp ! Suc j))) \<and>
           right_x_at rp y =
             Inr (if fst (rp ! Suc i) = fst (rp ! i) then snd (rp ! i)
                  else snd (rp ! i) + (y - fst (rp ! i)) / (fst (rp ! Suc i) - fst (rp ! i))
                                      * (snd (rp ! Suc i) - snd (rp ! i)))"
proof -
  have srt: "sort_key fst rp = rp" using assms(1) by (rule sort_key_id_if_sorted)
  have len: "2 \<le> length rp"
  proof (cases rp)
    case Nil
    with assms(2) show ?thesis by simp
  next
    case (Cons a rest)
    with assms(3,4) have "rest \<noteq> []" by auto
    with Cons show ?thesis by (cases rest) simp_all
  qed
  have val: "right_x_at rp y = Inr (find_span (zip rp (tl rp)) y (snd (last rp)))"
    using assms(2,3,4) by (simp add: right_x_at_def srt Let_def)
  from find_span_bracket[OF assms(1) len, of y "snd (last rp)"] assms(3,4)
  obtain i where i: "Suc i < length rp" "fst (rp ! i) \<le> y" "y \<le> fst (rp ! Suc i)"
      "\<forall>j<i. \<not> (fst (rp ! j) \<le> y \<and> y \<le> fst (rp ! Suc j))"
      "find_span (zip rp (tl rp)) y (snd (last rp)) =
         snd (rp ! i) + (if fst (rp ! Suc i) \<noteq> fst (rp ! i)
                         then (y - fst (rp ! i)) / (fst (rp ! Suc i) - fst (rp ! i)) else 0)
                        * (snd (rp ! Suc i) - snd (rp ! i))"
    by force
  show ?thesis
    by (intro exI[of _ i]) (use i val in simp)
qed

text \<open>
  The instance of the specification: for the profile \<open>(0, 350)\<close>, \<open>(1000, 400)\<close> the
  value at 500 is 375.
\<close>

theorem right_x_at_interpolates_witness:
  "sorted (map fst ([(0, 350), (1000, 400)] :: (real \<times> real) list)) \<and>
   fst (hd ([(0, 350), (1000, 400)] :: (real \<times> real) list)) < 500 \<and>
   500 < fst (last ([(0, 350), (1000, 400)] :: (real \<times> real) list)) \<and>
   right_x_at [(0, 350), (1000, 400)] 500 = Inr 375"
proof -
  let ?p = "[(0, 350), (1000, 400)] :: (real \<times> real) list"
  have h1: "sorted (map fst ?p)" by simp
  have h2: "?p \<noteq> []" by simp
  have h3: "fst (hd ?p) < 500" by simp
  have h4: "500 < fst (last ?p)" by simp
  from right_x_at_interpolates[OF h1 h2 h3 h4]
  obtain i where i: "Suc i < length ?p"
    and v: "right_x_at ?p 500 =
             Inr (if fst (?p ! Suc i) = fst (?p ! i) then snd (?p ! i)
                  else snd (?p ! i) + (500 - fst (?p ! i)) / (fst (?p ! Suc i) - fst (?p ! i))
                                      * (snd (?p ! Suc i) - snd (?p ! i)))"
    by (elim exE conjE) (rule that, assumption+)
  from i have "i = 0" by simp
  with v have "right_x_at ?p 500 = Inr 375" by simp
  with h1 h3 h4 show ?thesis by simp
qed

subsection \<open>C2: one left hole and one right hole for each station\<close>

text \<open>
  Claim C2. When the profile is not empty the build completes, and for the stations in
  their order: the left holes are the circles with centre
  \<open>(left_x + hole_offset_from_left, y)\<close> and radius \<open>hole_dia / 2\<close>, one for each station
  \<open>y\<close>; the right holes are the circles with centre
  \<open>(right_x_at y - hole_offset_from_right, y)\<close> and the same radius, one for each station.
\<close>

theorem holes_per_station:
  assumes "right_edge_profile p \<noteq> []"
  shows "\<exists>d. build p = Inr d \<and>
           left_holes d =
             map (\<lambda>y. Circle (left_x p + hole_offset_from_left p, y) (hole_dia p / 2) ''HOLES_L'')
               (stations p) \<and>
           list_all2 (\<lambda>y e. \<exists>x. right_x_at (right_edge_profile p) y = Inr x \<and>
                          e = Circle (x - hole_offset_from_right p, y) (hole_dia p / 2) ''HOLES_R'')
             (stations p) (right_holes d)"
proof -
  from build_ok[OF assms] obtain d where d: "build p = Inr d" by blast
  have r: "list_all2 (\<lambda>y e. \<exists>x. right_x_at (right_edge_profile p) y = Inr x \<and>
                          e = Circle (x - hole_offset_from_right p, y) (hole_dia p / 2) ''HOLES_R'')
             (stations p) (right_holes d)"
    unfolding right_holes_build[OF assms d] list_all2_map2
  proof (rule list_all2_refl)
    fix y
    from right_x_at_total[OF assms, of y]
    obtain x where "right_x_at (right_edge_profile p) y = Inr x" by blast
    then show "\<exists>x. right_x_at (right_edge_profile p) y = Inr x \<and>
         Circle (projr (right_x_at (right_edge_profile p) y) - hole_offset_from_right p, y)
           (hole_dia p / 2) ''HOLES_R'' =
         Circle (x - hole_offset_from_right p, y) (hole_dia p / 2) ''HOLES_R''"
      by simp
  qed
  show ?thesis
    using d left_holes_build[OF assms d] r by blast
qed

text \<open>
  The scenario of the specification: with the profile \<open>(0, 350)\<close>, \<open>(1000, 400)\<close>, the one
  station 500 and both offsets 20, the left hole is at \<open>(20, 500)\<close> and the right hole at
  \<open>(355, 500)\<close>.
\<close>

theorem holes_per_station_witness:
  "right_edge_profile scenario_params \<noteq> [] \<and>
   (\<exists>d. build scenario_params = Inr d \<and>
        left_holes d = [Circle (20, 500) 7 ''HOLES_L''] \<and>
        right_holes d = [Circle (355, 500) 7 ''HOLES_R''])"
proof -
  have ne: "right_edge_profile scenario_params \<noteq> []"
    by (simp add: scenario_params_def script_params_def)
  have rx: "right_x_at [(0, 350), (1000, 400)] 500 = Inr 375"
    by (simp add: right_x_at_def)
  from holes_per_station[OF ne] obtain d where
    d: "build scenario_params = Inr d"
    and l: "left_holes d =
             map (\<lambda>y. Circle (left_x scenario_params + hole_offset_from_left scenario_params, y)
                        (hole_dia scenario_params / 2) ''HOLES_L'') (stations scenario_params)"
    and r: "list_all2 (\<lambda>y e. \<exists>x. right_x_at (right_edge_profile scenario_params) y = Inr x \<and>
                          e = Circle (x - hole_offset_from_right scenario_params, y)
                                (hole_dia scenario_params / 2) ''HOLES_R'')
             (stations scenario_params) (right_holes d)"
    by (elim exE conjE) (rule that, assumption+)
  from l have l': "left_holes d = [Circle (20, 500) 7 ''HOLES_L'']"
    by (simp add: scenario_params_def script_params_def)
  from r have r': "right_holes d = [Circle (355, 500) 7 ''HOLES_R'']"
    by (simp add: scenario_params_def script_params_def list_all2_Cons1 rx)
  from ne d l' r' show ?thesis by blast
qed

subsection \<open>C3: clamping\<close>

text \<open>
  Claim C3, as amended. For a profile with at least one point, the first point of the
  sorted profile carries the smallest breakpoint and the last one the largest. A query
  at or below the smallest breakpoint returns the \<open>x\<close> of the first point. A query at or
  above the largest breakpoint returns the \<open>x\<close> of the last point when it is also
  strictly above the smallest breakpoint: the low test comes first in the code.
\<close>

theorem right_x_at_clamps:
  assumes "profile \<noteq> []"
  shows "fst (hd (sort_key fst profile)) = Min (fst ` set profile) \<and>
         fst (last (sort_key fst profile)) = Max (fst ` set profile) \<and>
         (y \<le> Min (fst ` set profile) \<longrightarrow>
            right_x_at profile y = Inr (snd (hd (sort_key fst profile)))) \<and>
         (Max (fst ` set profile) \<le> y \<and> Min (fst ` set profile) < y \<longrightarrow>
            right_x_at profile y = Inr (snd (last (sort_key fst profile))))"
proof -
  let ?s = "sort_key fst profile"
  have ne: "?s \<noteq> []" using assms by (simp add: sort_key_Nil_iff)
  have srt: "sorted (map fst ?s)" by (rule sorted_sort_key)
  have mn: "fst (hd ?s) = Min (fst ` set profile)"
    using sorted_key_hd_Min[OF srt ne] by simp
  have mx: "fst (last ?s) = Max (fst ` set profile)"
    using sorted_key_last_Max[OF srt ne] by simp
  show ?thesis
    using ne mn mx by (simp add: right_x_at_def Let_def)
qed

theorem right_x_at_clamps_witness:
  "right_x_at [(0, 350), (1000, 400)] (-5) = Inr 350 \<and>
   right_x_at [(0, 350), (1000, 400)] 1200 = Inr 400"
  using right_x_at_clamps[of "[(0, 350), (1000, 400)]" "-5"]
        right_x_at_clamps[of "[(0, 350), (1000, 400)]" 1200]
  by simp

text \<open>
  The claim as written fails where all breakpoints are equal to the query: for the
  profile \<open>(5, 1)\<close>, \<open>(5, 2)\<close> the query 5 is at the largest breakpoint, and the result is
  the \<open>x\<close> of the first point, not of the last.
\<close>

theorem right_x_at_high_clamp_counterexample:
  "fst (last (sort_key fst [(5, 1), (5, 2 :: real)])) \<le> (5 :: real) \<and>
   right_x_at [(5, 1), (5, 2)] 5 \<noteq> Inr (snd (last (sort_key fst [(5 :: real, 1 :: real), (5, 2)])))"
  by (simp add: right_x_at_def)

subsection \<open>C4: the value at a breakpoint\<close>




subsection \<open>C5: the empty profile\<close>




subsection \<open>C6: the dashed line from (0, 0) to (800, 0)\<close>


subsection \<open>C7: as many holes on each side as stations\<close>

text \<open>
  Claim C7. When the build completes (the profile is not empty), the number of left
  holes and the number of right holes are both the number of stations.
\<close>

theorem hole_counts:
  assumes "right_edge_profile p \<noteq> []"
  shows "\<exists>d. build p = Inr d \<and>
           length (left_holes d) = length (stations p) \<and>
           length (right_holes d) = length (stations p)"
proof -
  from build_ok[OF assms] obtain d where d: "build p = Inr d" by blast
  show ?thesis
    using d left_holes_build[OF assms d] right_holes_build[OF assms d] by simp
qed

theorem hole_counts_witness:
  "right_edge_profile script_params \<noteq> [] \<and>
   (\<exists>d. build script_params = Inr d \<and> length (left_holes d) = 7 \<and> length (right_holes d) = 7)"
proof -
  have ne: "right_edge_profile script_params \<noteq> []" by (simp add: script_params_def)
  have st: "length (stations script_params) = 7" by (simp add: script_params_def)
  from hole_counts[OF ne] ne show ?thesis unfolding st by blast
qed

subsection \<open>C8: the top-right corner\<close>

text \<open>
  Claim C8. For a non-empty profile the top-right corner is the first element of the
  profile, \<open>x\<close> its distance from the left and \<open>y\<close> its distance from the top; the third
  entity of the drawing, the second segment of the top edge, ends there; and the build
  does not depend on \<open>top_right_flange\<close>, the parameter that only the provisional span
  reads.
\<close>

theorem top_right_from_profile:
  assumes "right_edge_profile p \<noteq> []"
  shows "top_right p = (snd (hd (right_edge_profile p)), fst (hd (right_edge_profile p))) \<and>
         (\<exists>d. build p = Inr d \<and>
              msp d ! 2 = Line (left_x p + top_left_flange p, 0)
                            (snd (hd (right_edge_profile p)), fst (hd (right_edge_profile p)))
                            ''OUTLINE'') \<and>
         build (p\<lparr>top_right_flange := w\<rparr>) = build p"
proof -
  have tr: "top_right p = (snd (hd (right_edge_profile p)), fst (hd (right_edge_profile p)))"
    using assms by (simp add: top_right_def)
  from build_ok[OF assms] obtain d where d: "build p = Inr d" by blast
  have "msp d ! 2 = Line (left_x p + top_left_flange p, 0)
                            (snd (hd (right_edge_profile p)), fst (hd (right_edge_profile p)))
                            ''OUTLINE''"
    using d unfolding build_ok[OF assms]
    by (auto simp add: prefix_of_bend_and_notes[OF assms] outline_def add_line_def
          spline_from_points_def tr Let_def)
  with d tr build_ignores_top_right_flange[OF assms] show ?thesis by blast
qed

theorem top_right_from_profile_witness:
  "right_edge_profile script_params \<noteq> [] \<and>
   top_right script_params = (385, 0) \<and>
   build (script_params\<lparr>top_right_flange := 99\<rparr>) = build script_params"
  using top_right_from_profile[of script_params 99]
  by (simp add: script_params_def)

subsection \<open>C10: the drawn intervals of a dashed line\<close>




end
